theory Spec2Isabelle
  imports Main "HOL-Library.Sublist"
begin

section \<open>Python strings\<close>

text \<open>
  A Python \<open>str\<close> is a sequence of Unicode code points; it is modelled as a list of
  natural numbers, one per code point, so that lengths, slices and substring tests count
  what Python counts.  ASCII literals of the source are written with \<open>lit\<close>; the
  Japanese literals of the source are given by their code points.
\<close>

type_synonym pystr = "nat list"

definition lit :: "string \<Rightarrow> pystr" where
  "lit cs = map of_char cs"

definition NL :: pystr where
  "NL = [0x0A]"

text \<open>The code points for which \<open>str.isspace()\<close> holds (and which \<open>\s\<close> matches).\<close>

definition is_space :: "nat \<Rightarrow> bool" where
  "is_space c \<longleftrightarrow>
     (0x09 \<le> c \<and> c \<le> 0x0D) \<or> (0x1C \<le> c \<and> c \<le> 0x20) \<or> c = 0x85 \<or> c = 0xA0 \<or>
     c = 0x1680 \<or> (0x2000 \<le> c \<and> c \<le> 0x200A) \<or> c = 0x2028 \<or> c = 0x2029 \<or>
     c = 0x202F \<or> c = 0x205F \<or> c = 0x3000"

text \<open>\<open>s.strip()\<close>: whitespace is removed from both ends.\<close>

definition strip :: "pystr \<Rightarrow> pystr" where
  "strip s = rev (dropWhile is_space (rev (dropWhile is_space s)))"

text \<open>\<open>sub in s\<close> for two strings: \<open>sub\<close> occurs in \<open>s\<close> as a contiguous block.\<close>

fun str_contains :: "pystr \<Rightarrow> pystr \<Rightarrow> bool" where
  "str_contains sub [] = (sub = [])"
| "str_contains sub (x # xs) = (prefix sub (x # xs) \<or> str_contains sub xs)"

definition Yes :: pystr where
  "Yes = lit ''Yes''"

definition No :: pystr where
  "No = lit ''No''"

section \<open>Errors\<close>

datatype error = IndexError | KeyError | TypeError | JSONDecodeError | GraphConfigError

section \<open>The shared state (\<open>QueryState\<close>)\<close>

text \<open>
  A message is a dictionary from keys such as \<open>role\<close> and \<open>content\<close> to text.  The
  judgment fields are declared \<open>Optional[Literal["Yes", "No"]]\<close>, but what is stored at
  run time is whatever string the node assigns, so they are strings here.
\<close>

type_synonym message = "(pystr \<times> pystr) list"

record QueryState =
  messages :: "message list"
  query :: pystr
  agent2_judgment :: "pystr option"
  agent4_judgment :: "pystr option"
  debug_info :: "pystr list"

text \<open>\<open>QueryState(query=q)\<close>: the other fields take the defaults of the class.\<close>

definition initial_state :: "pystr \<Rightarrow> QueryState" where
  "initial_state q =
     \<lparr>messages = [], query = q, agent2_judgment = None, agent4_judgment = None, debug_info = []\<rparr>"

datatype node = START | Agent1 | Agent2 | Router1 | Agent3 | Prompt1 | Agent4 | Router2 | Prompt2 | END

text \<open>
  The \<open>update\<close> dictionary of a \<open>Command\<close>: a field is \<open>None\<close> when its key is absent.
\<close>

record StateUpdate =
  upd_query :: "pystr option"
  upd_agent2_judgment :: "pystr option"
  upd_agent4_judgment :: "pystr option"
  upd_debug_info :: "pystr list option"

definition no_update :: StateUpdate where
  "no_update = \<lparr>upd_query = None, upd_agent2_judgment = None,
                 upd_agent4_judgment = None, upd_debug_info = None\<rparr>"

record Command =
  goto :: node
  update :: StateUpdate

text \<open>\<open>result[-1]["content"]\<close> on the list of messages an agent returns.\<close>

definition final_content :: "message list \<Rightarrow> error + pystr" where
  "final_content result =
     (if result = [] then Inl IndexError
      else case map_of (last result) (lit ''content'') of
             None \<Rightarrow> Inl KeyError
           | Some c \<Rightarrow> Inr c)"

section \<open>JSON values and the \<open>json\<close> module\<close>

text \<open>
  The values \<open>json.loads\<close> can return.  The payload of a number is never inspected by
  the tools below (every use of a number there is a \<open>TypeError\<close>), so it is left out.
  The module itself is a library: its two functions are parameters of the model.
\<close>

datatype json = JNull | JBool bool | JNumber | JString pystr | JArray "json list"
  | JObject "(pystr \<times> json) list"

record json_module =
  dumps :: "json \<Rightarrow> pystr"
  loads :: "pystr \<Rightarrow> error + json"

text \<open>\<open>data[key]\<close> with a string key: only a dictionary can be indexed by a string.\<close>

fun py_getitem :: "json \<Rightarrow> pystr \<Rightarrow> error + json" where
  "py_getitem (JObject kvs) k = (case map_of kvs k of None \<Rightarrow> Inl KeyError | Some v \<Rightarrow> Inr v)"
| "py_getitem _ k = Inl TypeError"

text \<open>\<open>word in v\<close> with a string on the left: substring test on a string, membership
  in a list, key membership in a dictionary, \<open>TypeError\<close> otherwise.\<close>

fun py_in :: "pystr \<Rightarrow> json \<Rightarrow> error + bool" where
  "py_in w (JString s) = Inr (str_contains w s)"
| "py_in w (JArray vs) = Inr (JString w \<in> set vs)"
| "py_in w (JObject kvs) = Inr (w \<in> fst ` set kvs)"
| "py_in w _ = Inl TypeError"

section \<open>The tools of Agent4\<close>

definition kuwashiku :: pystr where
  "kuwashiku = [0x8A73, 0x3057, 0x304F]"

definition senmon_yougo :: pystr where
  "senmon_yougo = [0x5C02, 0x9580, 0x7528, 0x8A9E]"

text \<open>
  \<open>agent4_tool1_check_unanswered\<close>: \<open>"No"\<close> when the keyword is in \<open>query\<close> and not in
  \<open>answer_candidate\<close>.  Python's \<open>and\<close> does not evaluate its right operand when the
  left one is false.
\<close>

definition agent4_tool1_check_unanswered :: "json_module \<Rightarrow> pystr \<Rightarrow> error + pystr" where
  "agent4_tool1_check_unanswered js input_json =
     (case loads js input_json of Inl e \<Rightarrow> Inl e | Inr data \<Rightarrow>
       (case py_getitem data (lit ''query'') of Inl e \<Rightarrow> Inl e | Inr query_v \<Rightarrow>
         (case py_getitem data (lit ''answer_candidate'') of Inl e \<Rightarrow> Inl e | Inr answer_candidate \<Rightarrow>
           (case py_in kuwashiku query_v of Inl e \<Rightarrow> Inl e | Inr in_query \<Rightarrow>
              if in_query then
                (case py_in kuwashiku answer_candidate of Inl e \<Rightarrow> Inl e | Inr in_answer \<Rightarrow>
                   if \<not> in_answer then Inr No else Inr Yes)
              else Inr Yes))))"

definition agent4_tool2_check_technical_words :: "json_module \<Rightarrow> pystr \<Rightarrow> error + pystr" where
  "agent4_tool2_check_technical_words js input_json =
     (case loads js input_json of Inl e \<Rightarrow> Inl e | Inr data \<Rightarrow>
       (case py_getitem data (lit ''answer_candidate'') of Inl e \<Rightarrow> Inl e | Inr answer_candidate \<Rightarrow>
         (case py_in senmon_yougo answer_candidate of Inl e \<Rightarrow> Inl e | Inr in_answer \<Rightarrow>
            if in_answer then Inr No else Inr Yes)))"

section \<open>The node functions\<close>

text \<open>
  An agent is called through \<open>invoke\<close>, here a function from the text of the single user
  message to the list of messages the agent returns; the chat model is a function from the
  prompt to the \<open>content\<close> of its response.  What they answer is not part of the program.
  A node assigns to the fields of the state object it is given and returns a \<open>Command\<close>;
  the model returns the command together with the state object after the assignments.
\<close>

definition agent1_instructions :: "QueryState \<Rightarrow> pystr" where
  "agent1_instructions st =
     lit ''User Query: '' @ query st @ NL @ lit ''Please finalize your answer now.''"

definition call_agent1 :: "(pystr \<Rightarrow> message list) \<Rightarrow> QueryState \<Rightarrow> error + Command \<times> QueryState" where
  "call_agent1 invoke st =
     (let instructions = agent1_instructions st;
          result = invoke instructions
      in case final_content result of Inl e \<Rightarrow> Inl e | Inr final_ans \<Rightarrow>
         let st1 = st\<lparr>query := query st @ NL @ lit ''[Agent1 says]: '' @ final_ans\<rparr>;
             st2 = st1\<lparr>debug_info := debug_info st1 @ [lit ''[Agent1] '' @ final_ans]\<rparr>
         in Inr (\<lparr>goto = Agent2,
                  update = no_update\<lparr>upd_query := Some (query st2),
                                     upd_debug_info := Some (debug_info st2)\<rparr>\<rparr>, st2))"

definition agent2_instructions :: "QueryState \<Rightarrow> pystr" where
  "agent2_instructions st =
     lit ''User Query: '' @ query st @ NL @ lit ''Return final answer as 'Yes' or 'No'.''"

definition call_agent2 :: "(pystr \<Rightarrow> message list) \<Rightarrow> QueryState \<Rightarrow> error + Command \<times> QueryState" where
  "call_agent2 invoke st =
     (let instructions = agent2_instructions st;
          result = invoke instructions
      in case final_content result of Inl e \<Rightarrow> Inl e | Inr content \<Rightarrow>
         let final_ans = strip content;
             final_ans = (if final_ans \<notin> set [Yes, No] then No else final_ans);
             st1 = st\<lparr>agent2_judgment := Some final_ans\<rparr>;
             st2 = st1\<lparr>debug_info := debug_info st1 @ [lit ''[Agent2] judged = '' @ final_ans]\<rparr>
         in Inr (\<lparr>goto = Router1,
                  update = no_update\<lparr>upd_agent2_judgment := agent2_judgment st2,
                                     upd_debug_info := Some (debug_info st2)\<rparr>\<rparr>, st2))"

definition agent3_instructions :: "QueryState \<Rightarrow> pystr" where
  "agent3_instructions st =
     lit ''We need more info for the user query. Please gather from documents, Slack, GitHub issues, internet. ''
     @ lit ''User Query: '' @ query st @ NL @ lit ''Finally, output a summary of what you found.''"

definition call_agent3 :: "(pystr \<Rightarrow> message list) \<Rightarrow> QueryState \<Rightarrow> error + Command \<times> QueryState" where
  "call_agent3 invoke st =
     (let instructions = agent3_instructions st;
          result = invoke instructions
      in case final_content result of Inl e \<Rightarrow> Inl e | Inr final_ans \<Rightarrow>
         let st1 = st\<lparr>query := query st @ NL @ lit ''[Agent3 additional info]:'' @ NL @ final_ans\<rparr>;
             st2 = st1\<lparr>debug_info := debug_info st1 @ [lit ''[Agent3] '' @ final_ans]\<rparr>
         in Inr (\<lparr>goto = Prompt1,
                  update = no_update\<lparr>upd_query := Some (query st2),
                                     upd_debug_info := Some (debug_info st2)\<rparr>\<rparr>, st2))"

text \<open>The dictionary \<open>call_agent4\<close> hands to \<open>json.dumps\<close>, and the prompt built around it.\<close>

definition agent4_data :: "QueryState \<Rightarrow> json" where
  "agent4_data st =
     JObject [(lit ''query'', JString (query st)), (lit ''answer_candidate'', JString (query st))]"

definition agent4_data_json :: "json_module \<Rightarrow> QueryState \<Rightarrow> pystr" where
  "agent4_data_json js st = dumps js (agent4_data st)"

definition agent4_instructions :: "json_module \<Rightarrow> QueryState \<Rightarrow> pystr" where
  "agent4_instructions js st =
     lit ''Check the answer thoroughly using your tools to see if it's fully answered and not too technical.'' @ NL
     @ lit ''JSON to pass to each tool: '' @ agent4_data_json js st @ NL
     @ lit ''Finally, output 'Yes' if it's fully acceptable, else 'No'.''"

definition call_agent4 ::
  "json_module \<Rightarrow> (pystr \<Rightarrow> message list) \<Rightarrow> QueryState \<Rightarrow> error + Command \<times> QueryState" where
  "call_agent4 js invoke st =
     (let instructions = agent4_instructions js st;
          result = invoke instructions
      in case final_content result of Inl e \<Rightarrow> Inl e | Inr content \<Rightarrow>
         let final_ans = strip content;
             final_ans = (if final_ans \<notin> set [Yes, No] then No else final_ans);
             st1 = st\<lparr>agent4_judgment := Some final_ans\<rparr>;
             st2 = st1\<lparr>debug_info := debug_info st1 @ [lit ''[Agent4] judged = '' @ final_ans]\<rparr>
         in Inr (\<lparr>goto = Router2,
                  update = no_update\<lparr>upd_agent4_judgment := agent4_judgment st2,
                                     upd_debug_info := Some (debug_info st2)\<rparr>\<rparr>, st2))"

definition prompt1_text :: "QueryState \<Rightarrow> pystr" where
  "prompt1_text st =
     [0xA, 0x3042, 0x306A, 0x305F, 0x306F, 0x30E6, 0x30FC, 0x30B6, 0x306B, 0x56DE, 0x7B54,
      0x3059, 0x308B, 0x30A2, 0x30B7, 0x30B9, 0x30BF, 0x30F3, 0x30C8, 0x3067, 0x3059, 0x3002, 0xA]
     @ lit ''[User Query & Collected Info]: '' @ query st
     @ [0xA, 0xA, 0x3053, 0x306E, 0x8CEA, 0x554F, 0x306B, 0x5BFE, 0x3057, 0x3066, 0x3001,
        0x4E00, 0x5EA6, 0x56DE, 0x7B54, 0x6848, 0x3092, 0x307E, 0x3068, 0x3081, 0x3066, 0x304F,
        0x3060, 0x3055, 0x3044, 0x3002, 0xA]"

definition prompt1 :: "(pystr \<Rightarrow> pystr) \<Rightarrow> QueryState \<Rightarrow> Command \<times> QueryState" where
  "prompt1 llm st =
     (let response_content = llm (prompt1_text st);
          answer = strip response_content;
          st1 = st\<lparr>query := query st @ NL @ lit ''[Prompt1's answer draft]:'' @ NL @ answer\<rparr>;
          st2 = st1\<lparr>debug_info := debug_info st1 @ [lit ''[Prompt1] generated answer draft:'' @ NL @ answer]\<rparr>
      in (\<lparr>goto = Agent4,
            update = no_update\<lparr>upd_query := Some (query st2),
                               upd_debug_info := Some (debug_info st2)\<rparr>\<rparr>, st2))"

definition prompt2_text :: "QueryState \<Rightarrow> pystr" where
  "prompt2_text st =
     [0xA, 0x3042, 0x306A, 0x305F, 0x306F, 0x56DE, 0x7B54, 0x3092, 0x30D6, 0x30E9, 0x30C3,
      0x30B7, 0x30E5, 0x30A2, 0x30C3, 0x30D7, 0x3059, 0x308B, 0x30A2, 0x30B7, 0x30B9, 0x30BF,
      0x30F3, 0x30C8, 0x3067, 0x3059, 0x3002, 0xA, 0x524D, 0x56DE, 0x306E, 0x56DE, 0x7B54,
      0x6848, 0x3A, 0xA]
     @ query st
     @ [0xA, 0xA, 0x307E, 0x3060, 0x56DE, 0x7B54, 0x304C, 0x4E0D, 0x5341, 0x5206, 0x20, 0x6F,
        0x72, 0x20, 0x5C02, 0x9580, 0x7684, 0x3059, 0x304E, 0x308B, 0x3068, 0x6307, 0x6458,
        0x3055, 0x308C, 0x307E, 0x3057, 0x305F, 0x3002, 0xA, 0x3088, 0x308A, 0x5206, 0x304B,
        0x308A, 0x3084, 0x3059, 0x304F, 0x3001, 0x3088, 0x308A, 0x8A73, 0x7D30, 0x306B, 0x8AAC,
        0x660E, 0x3059, 0x308B, 0x56DE, 0x7B54, 0x3092, 0x518D, 0x5EA6, 0x4F5C, 0x6210, 0x3057,
        0x3066, 0x304F, 0x3060, 0x3055, 0x3044, 0x3002, 0xA]"

definition prompt2 :: "(pystr \<Rightarrow> pystr) \<Rightarrow> QueryState \<Rightarrow> Command \<times> QueryState" where
  "prompt2 llm st =
     (let response_content = llm (prompt2_text st);
          refined_answer = strip response_content;
          st1 = st\<lparr>query := query st @ NL @ lit ''[Prompt2 refined answer]:'' @ NL @ refined_answer\<rparr>;
          st2 = st1\<lparr>debug_info := debug_info st1 @ [lit ''[Prompt2] refined answer:'' @ NL @ refined_answer]\<rparr>
      in (\<lparr>goto = Agent2,
            update = no_update\<lparr>upd_query := Some (query st2),
                               upd_debug_info := Some (debug_info st2)\<rparr>\<rparr>, st2))"

section \<open>The routers\<close>

text \<open>The name under which \<open>build_graph\<close> registers a node, as it appears in an f-string.\<close>

fun node_name :: "node \<Rightarrow> pystr" where
  "node_name START = lit ''__start__''"
| "node_name Agent1 = lit ''agent1''"
| "node_name Agent2 = lit ''agent2''"
| "node_name Router1 = lit ''router1''"
| "node_name Agent3 = lit ''agent3''"
| "node_name Prompt1 = lit ''prompt1''"
| "node_name Agent4 = lit ''agent4''"
| "node_name Router2 = lit ''router2''"
| "node_name Prompt2 = lit ''prompt2''"
| "node_name END = lit ''__end__''"

text \<open>An optional string inside an f-string: \<open>None\<close> prints as \<open>None\<close>.\<close>

definition fmt_optional :: "pystr option \<Rightarrow> pystr" where
  "fmt_optional v = (case v of None \<Rightarrow> lit ''None'' | Some t \<Rightarrow> t)"

definition router1 :: "QueryState \<Rightarrow> Command \<times> QueryState" where
  "router1 st =
     (let goto_node = (if agent2_judgment st = Some Yes then Prompt1 else Agent3);
          st1 = st\<lparr>debug_info := debug_info st @
                  [lit ''[Router1] Agent2 = '' @ fmt_optional (agent2_judgment st)
                   @ lit '' -> '' @ node_name goto_node]\<rparr>
      in (\<lparr>goto = goto_node, update = no_update\<lparr>upd_debug_info := Some (debug_info st1)\<rparr>\<rparr>, st1))"

definition router2 :: "QueryState \<Rightarrow> Command \<times> QueryState" where
  "router2 st =
     (if agent4_judgment st = Some Yes then
        (let st1 = st\<lparr>debug_info := debug_info st @ [lit ''[Router2] Agent4=Yes => END'']\<rparr>
         in (\<lparr>goto = END, update = no_update\<lparr>upd_debug_info := Some (debug_info st1)\<rparr>\<rparr>, st1))
      else
        (let st1 = st\<lparr>debug_info := debug_info st @ [lit ''[Router2] Agent4=No => prompt2'']\<rparr>
         in (\<lparr>goto = Prompt2, update = no_update\<lparr>upd_debug_info := Some (debug_info st1)\<rparr>\<rparr>, st1)))"

section \<open>The graph\<close>

text \<open>The edges \<open>build_graph\<close> declares, in its order.\<close>

definition edges :: "(node \<times> node) list" where
  "edges =
     [(START, Agent1), (Agent1, Agent2), (Agent2, Router1), (Router1, Prompt1),
      (Router1, Agent3), (Agent3, Prompt1), (Prompt1, Agent4), (Agent4, Router2),
      (Router2, END), (Router2, Prompt2), (Prompt2, Agent2)]"

text \<open>
  The collaborators of a run.  Each is indexed by the number of nodes executed so far, so
  that the same prompt may be answered differently at different moments of a run; a fixed
  value of this record is one fixed sequence of responses.
\<close>

record collaborators =
  agent1_graph :: "nat \<Rightarrow> pystr \<Rightarrow> message list"
  agent2_graph :: "nat \<Rightarrow> pystr \<Rightarrow> message list"
  agent3_graph :: "nat \<Rightarrow> pystr \<Rightarrow> message list"
  agent4_graph :: "nat \<Rightarrow> pystr \<Rightarrow> message list"
  chat_model :: "nat \<Rightarrow> pystr \<Rightarrow> pystr"

record config =
  at_node :: node
  state :: QueryState
  clock :: nat

text \<open>The function registered under each node name, called with the collaborator it uses.\<close>

definition node_step :: "json_module \<Rightarrow> collaborators \<Rightarrow> config \<Rightarrow> error + Command \<times> QueryState" where
  "node_step js c cfg =
     (case at_node cfg of
        Agent1 \<Rightarrow> call_agent1 (agent1_graph c (clock cfg)) (state cfg)
      | Agent2 \<Rightarrow> call_agent2 (agent2_graph c (clock cfg)) (state cfg)
      | Router1 \<Rightarrow> Inr (router1 (state cfg))
      | Agent3 \<Rightarrow> call_agent3 (agent3_graph c (clock cfg)) (state cfg)
      | Prompt1 \<Rightarrow> Inr (prompt1 (chat_model c (clock cfg)) (state cfg))
      | Agent4 \<Rightarrow> call_agent4 js (agent4_graph c (clock cfg)) (state cfg)
      | Router2 \<Rightarrow> Inr (router2 (state cfg))
      | Prompt2 \<Rightarrow> Inr (prompt2 (chat_model c (clock cfg)) (state cfg))
      | _ \<Rightarrow> Inl GraphConfigError)"

text \<open>
  Modelled from the spec: how the graph executor merges the update of a command into
  the running state.  The executor is the compiled graph of the external graph library
  and is not part of the repository's sources; section 4.1 of the specification has it
  merge the update into the running state, a later value for a field overwriting the
  earlier one.
\<close>

definition apply_update :: "QueryState \<Rightarrow> StateUpdate \<Rightarrow> QueryState" where
  "apply_update st u =
     st\<lparr>query := (case upd_query u of None \<Rightarrow> query st | Some q \<Rightarrow> q),
        agent2_judgment := (case upd_agent2_judgment u of None \<Rightarrow> agent2_judgment st | Some j \<Rightarrow> Some j),
        agent4_judgment := (case upd_agent4_judgment u of None \<Rightarrow> agent4_judgment st | Some j \<Rightarrow> Some j),
        debug_info := (case upd_debug_info u of None \<Rightarrow> debug_info st | Some d \<Rightarrow> d)\<rparr>"

text \<open>
  Modelled from the spec: where the executor starts.  Section 4.1 gives it a start state
  and a start node; the start node is the one the \<open>START\<close> edge of \<open>build_graph\<close> names.
\<close>

definition start_config :: "QueryState \<Rightarrow> config" where
  "start_config st = \<lparr>at_node = Agent1, state = st, clock = 0\<rparr>"

text \<open>
  Modelled from the spec: the results of the executor's loop.  A run ends at the terminal
  marker with the final state, or with a fatal error; \<open>OutOfFuel\<close> is the model's own
  answer when the bound it was given is reached first, with the configuration reached.
\<close>

datatype outcome = Finished QueryState | Raised error | OutOfFuel config

text \<open>
  Modelled from the spec: the executor's loop (section 4.1).  Each node returns a
  successor and a state update; the executor merges the update into the running state
  and moves to the successor; a successor that is not a declared outgoing edge is a fatal
  configuration error; the loop stops when a node returns the terminal marker, and there
  is no step limit.  The first argument after the collaborators bounds the number of
  nodes executed, so that the model is a total function; the executor itself has no such
  bound.
\<close>

fun run_graph :: "json_module \<Rightarrow> collaborators \<Rightarrow> nat \<Rightarrow> config \<Rightarrow> outcome" where
  "run_graph js c 0 cfg = (if at_node cfg = END then Finished (state cfg) else OutOfFuel cfg)"
| "run_graph js c (Suc fuel) cfg =
     (if at_node cfg = END then Finished (state cfg)
      else case node_step js c cfg of
             Inl e \<Rightarrow> Raised e
           | Inr (cmd, st') \<Rightarrow>
               if (at_node cfg, goto cmd) \<notin> set edges then Raised GraphConfigError
               else run_graph js c fuel
                      \<lparr>at_node = goto cmd, state = apply_update st' (update cmd),
                       clock = Suc (clock cfg)\<rparr>)"

section \<open>The text-cleaning function \<open>preprocess\<close>\<close>

text \<open>
  The file that holds \<open>preprocess\<close> uses the names \<open>re\<close> and \<open>np\<close> without importing
  them; they are read as the regular-expression module of the standard library and as
  NumPy.  Two tables of the Unicode database are parameters: the lower-case form of a
  non-ASCII character (which may depend on its position in the text) and the non-ASCII
  characters that \<open>\w\<close> matches.  ASCII is written out.
\<close>

record unicode_db =
  lower_nonascii :: "pystr \<Rightarrow> nat \<Rightarrow> pystr"
  word_nonascii :: "nat \<Rightarrow> bool"

definition py_lower :: "unicode_db \<Rightarrow> pystr \<Rightarrow> pystr" where
  "py_lower u text =
     concat (map (\<lambda>i. let ch = text ! i in
                    if ch < 0x80 then [if 0x41 \<le> ch \<and> ch \<le> 0x5A then ch + 0x20 else ch]
                    else lower_nonascii u text i) [0..<length text])"

text \<open>
  \<open>re.sub(pattern, repl, text)\<close>: the text is scanned from the left; where the pattern
  matches, the match is replaced and the scan goes on behind it; elsewhere the character
  is kept.  The pattern is given by its matcher, which returns the length of the match
  that starts at the head of its argument.  No pattern of \<open>preprocess\<close> matches the empty
  string or looks behind the position it starts at.
\<close>

fun re_sub :: "(pystr \<Rightarrow> nat option) \<Rightarrow> pystr \<Rightarrow> pystr \<Rightarrow> pystr" where
  "re_sub m repl [] = []"
| "re_sub m repl (x # xs) =
     (case m (x # xs) of
        None \<Rightarrow> x # re_sub m repl xs
      | Some n \<Rightarrow> repl @ re_sub m repl (drop (n - 1) xs))"

text \<open>A literal pattern, a single character class, and a class repeated with \<open>+\<close>.\<close>

definition match_literal :: "pystr \<Rightarrow> pystr \<Rightarrow> nat option" where
  "match_literal pat t = (if prefix pat t then Some (length pat) else None)"

definition match_char :: "(nat \<Rightarrow> bool) \<Rightarrow> pystr \<Rightarrow> nat option" where
  "match_char P t = (case t of [] \<Rightarrow> None | x # _ \<Rightarrow> if P x then Some 1 else None)"

definition match_run :: "(nat \<Rightarrow> bool) \<Rightarrow> pystr \<Rightarrow> nat option" where
  "match_run P t = (let k = length (takeWhile P t) in if 1 \<le> k then Some k else None)"

definition is_word :: "unicode_db \<Rightarrow> nat \<Rightarrow> bool" where
  "is_word u c \<longleftrightarrow>
     (if c < 0x80 then (0x30 \<le> c \<and> c \<le> 0x39) \<or> (0x41 \<le> c \<and> c \<le> 0x5A) \<or>
                       (0x61 \<le> c \<and> c \<le> 0x7A) \<or> c = 0x5F
      else word_nonascii u c)"

text \<open>The class of \<open>https?://[\w!\?/\+\-_~=;\.,\*&@#\$%\(\)'\[\]]+\<close>.\<close>

definition url_char :: "unicode_db \<Rightarrow> nat \<Rightarrow> bool" where
  "url_char u c \<longleftrightarrow> is_word u c \<or> c \<in> set (lit ''!?/+-_~=;.,*&@#$%()[]'') \<or> c = 0x27"

definition match_url :: "unicode_db \<Rightarrow> pystr \<Rightarrow> nat option" where
  "match_url u t =
     (case (if prefix (lit ''https://'') t then Some 8
            else if prefix (lit ''http://'') t then Some 7 else None) of
        None \<Rightarrow> None
      | Some h \<Rightarrow> (case match_run (url_char u) (drop h t) of
                     None \<Rightarrow> None
                   | Some k \<Rightarrow> Some (h + k)))"

text \<open>\<open>\(.*?\)\<close>: from an opening bracket to the nearest closing one, with no line feed
  between them (the dot does not match a line feed).\<close>

definition match_paren :: "pystr \<Rightarrow> nat option" where
  "match_paren t =
     (case t of
        [] \<Rightarrow> None
      | x # rest \<Rightarrow>
          if x \<noteq> 0x28 then None
          else (let inner = takeWhile (\<lambda>c. c \<noteq> 0x29 \<and> c \<noteq> 0x0A) rest
                in case drop (length inner) rest of
                     [] \<Rightarrow> None
                   | y # _ \<Rightarrow> if y = 0x29 then Some (length inner + 2) else None))"

text \<open>The characters \<open>[^a-zA-z0-9.,?!/&%$']\<close> leaves alone; the range \<open>A-z\<close> is the
  source's.\<close>

definition kept_char :: "nat \<Rightarrow> bool" where
  "kept_char c \<longleftrightarrow>
     (0x61 \<le> c \<and> c \<le> 0x7A) \<or> (0x41 \<le> c \<and> c \<le> 0x7A) \<or> (0x30 \<le> c \<and> c \<le> 0x39) \<or>
     c \<in> set (lit ''.,?!/&%$'') \<or> c = 0x27"

text \<open>\<open>[\s]*\.[\.\s]+\<close>: white space, a full stop, then full stops and white space.\<close>

definition match_dots :: "pystr \<Rightarrow> nat option" where
  "match_dots t =
     (let a = length (takeWhile is_space t)
      in case drop a t of
           [] \<Rightarrow> None
         | d # r \<Rightarrow>
             if d \<noteq> 0x2E then None
             else (case match_run (\<lambda>c. c = 0x2E \<or> is_space c) r of
                     None \<Rightarrow> None
                   | Some b \<Rightarrow> Some (a + 1 + b)))"

datatype pyvalue = PyFloat | PyStr pystr | PyOther

datatype cleaned = Text pystr | NaN

definition preprocess :: "unicode_db \<Rightarrow> pyvalue \<Rightarrow> error + cleaned" where
  "preprocess u v =
     (case v of
        PyFloat \<Rightarrow> Inr NaN
      | PyOther \<Rightarrow> Inl TypeError
      | PyStr text0 \<Rightarrow>
          (let text = re_sub (match_url u) (lit '' '') text0;
               text = py_lower u text;
               text = re_sub match_paren (lit '' '') text;
               text = re_sub (match_char is_space) (lit '' '') text;
               text = re_sub (match_literal [0xE2, 0x20AC, 0x2122]) [0x27] text;
               text = re_sub (match_char (\<lambda>c. \<not> kept_char c)) (lit '' '') text;
               text = re_sub (match_literal (lit '','')) (lit '' , '') text;
               text = re_sub (match_literal (lit ''!'')) (lit ''. '') text;
               text = re_sub (match_literal (lit ''.'')) (lit ''. '') text;
               text = re_sub (match_run is_space) (lit '' '') text;
               text = re_sub match_dots (lit ''. '') text;
               text = re_sub (match_literal [0x27, 0x20]) [0x27] text;
               text = re_sub (match_literal (lit '' l '')) (lit '' i '') text;
               text = re_sub (match_literal (lit '' ,'')) (lit '','') text
           in if text = [] then Inl IndexError
              else (let text = (if last text = 0x20 then butlast text else text)
                    in if text = [] then Inl IndexError
                       else (let text = (if hd text = 0x20 then tl text else text);
                                 text = (if take 2 text = lit ''l '' then lit ''i '' @ drop 2 text
                                         else text)
                             in Inr (Text text)))))"

section \<open>Concrete collaborators for the examples\<close>

text \<open>An agent whose only message has the given \<open>content\<close>, whatever the prompt.\<close>

definition assistant_message :: "pystr \<Rightarrow> message" where
  "assistant_message answer = [(lit ''role'', lit ''assistant''), (lit ''content'', answer)]"

definition reply_with :: "pystr \<Rightarrow> pystr \<Rightarrow> message list" where
  "reply_with answer prompt = [assistant_message answer]"

text \<open>
  A \<open>json\<close> module known at one document: \<open>d\<close> is written as the text \<open>t\<close>, and \<open>t\<close> is
  read back as \<open>d\<close>.  With \<open>payload_text\<close> below, \<open>t\<close> is the text Python's
  \<open>json.dumps\<close> returns for the dictionary of \<open>call_agent4\<close>.
\<close>

definition json_at :: "json \<Rightarrow> pystr \<Rightarrow> json_module" where
  "json_at d t =
     \<lparr>dumps = (\<lambda>x. if x = d then t else []),
      loads = (\<lambda>x. if x = t then Inr d else Inl JSONDecodeError)\<rparr>"

definition quoted :: "pystr \<Rightarrow> pystr" where
  "quoted t = [0x22] @ t @ [0x22]"

definition payload_text :: "pystr \<Rightarrow> pystr" where
  "payload_text e =
     lit ''{'' @ quoted (lit ''query'') @ lit '': '' @ quoted e @ lit '', ''
     @ quoted (lit ''answer_candidate'') @ lit '': '' @ quoted e @ lit ''}''"

definition senmon_yougo_escaped :: pystr where
  "senmon_yougo_escaped = concat (map (\<lambda>h. [0x5C] @ lit h) [''u5c02'', ''u9580'', ''u7528'', ''u8a9e''])"

definition senmon_json :: json_module where
  "senmon_json = json_at (agent4_data (initial_state senmon_yougo)) (payload_text senmon_yougo_escaped)"

definition kuwashiku_escaped :: pystr where
  "kuwashiku_escaped = concat (map (\<lambda>h. [0x5C] @ lit h) [''u8a73'', ''u3057'', ''u304f''])"

definition kuwashiku_json :: json_module where
  "kuwashiku_json = json_at (agent4_data (initial_state kuwashiku)) (payload_text kuwashiku_escaped)"

text \<open>The two judgment fields of the state a node leaves behind.\<close>

definition stored_verdicts :: "error + Command \<times> QueryState \<Rightarrow> error + pystr option \<times> pystr option" where
  "stored_verdicts res =
     (case res of Inl e \<Rightarrow> Inl e | Inr (cmd, st) \<Rightarrow> Inr (agent2_judgment st, agent4_judgment st))"

text \<open>Collaborators that give the same answer at every moment and to every prompt.\<close>

definition constant_collaborators :: "pystr \<Rightarrow> pystr \<Rightarrow> pystr \<Rightarrow> pystr \<Rightarrow> pystr \<Rightarrow> collaborators" where
  "constant_collaborators a1 a2 a3 a4 m =
     \<lparr>agent1_graph = (\<lambda>t. reply_with a1), agent2_graph = (\<lambda>t. reply_with a2),
      agent3_graph = (\<lambda>t. reply_with a3), agent4_graph = (\<lambda>t. reply_with a4),
      chat_model = (\<lambda>t prompt. m)\<rparr>"

section \<open>Strings and examples\<close>

text \<open>
  The text \<open>payload_text\<close> builds for the query \<open>senmon_yougo\<close>, character by character:
  an object with the keys \<open>query\<close> and \<open>answer_candidate\<close>, the non-ASCII characters
  written as escapes of four hexadecimal digits.
\<close>

lemma payload_text_senmon:
  "payload_text senmon_yougo_escaped =
     [0x7B, 0x22, 0x71, 0x75, 0x65, 0x72, 0x79, 0x22, 0x3A, 0x20, 0x22, 0x5C, 0x75, 0x35,
      0x63, 0x30, 0x32, 0x5C, 0x75, 0x39, 0x35, 0x38, 0x30, 0x5C, 0x75, 0x37, 0x35, 0x32,
      0x38, 0x5C, 0x75, 0x38, 0x61, 0x39, 0x65, 0x22, 0x2C, 0x20, 0x22, 0x61, 0x6E, 0x73,
      0x77, 0x65, 0x72, 0x5F, 0x63, 0x61, 0x6E, 0x64, 0x69, 0x64, 0x61, 0x74, 0x65, 0x22,
      0x3A, 0x20, 0x22, 0x5C, 0x75, 0x35, 0x63, 0x30, 0x32, 0x5C, 0x75, 0x39, 0x35, 0x38,
      0x30, 0x5C, 0x75, 0x37, 0x35, 0x32, 0x38, 0x5C, 0x75, 0x38, 0x61, 0x39, 0x65, 0x22,
      0x7D]"
  by (simp add: payload_text_def quoted_def senmon_yougo_escaped_def lit_def)

lemma initial_state_sel:
  "query (initial_state q) = q" "agent2_judgment (initial_state q) = None"
  "agent4_judgment (initial_state q) = None" "debug_info (initial_state q) = []"
  by (simp_all add: initial_state_def)



lemma final_content_reply_with: "final_content (reply_with a p) = Inr a"
  by (simp add: final_content_def reply_with_def assistant_message_def lit_def)

lemma json_at_roundtrip: "loads (json_at d t) (dumps (json_at d t) d) = Inr d"
  by (simp add: json_at_def)

lemma Yes_neq_No: "Yes \<noteq> No"
  by (simp add: Yes_def No_def lit_def)

lemma strip_padded_Yes: "strip (lit '' Yes '') = Yes"
  by (simp add: strip_def lit_def is_space_def Yes_def)

lemma padded_Yes_outside: "lit '' Yes '' \<notin> {Yes, No}"
  by (simp add: lit_def Yes_def No_def)

lemma strip_Yes: "strip Yes = Yes"
  by (simp add: strip_def lit_def is_space_def Yes_def)

lemma strip_No: "strip No = No"
  by (simp add: strip_def lit_def is_space_def No_def)

section \<open>The verdicts of Classify and Evaluate\<close>

text \<open>
  What \<open>call_agent2\<close> and \<open>call_agent4\<close> return when they return: the last message of the
  collaborator has a \<open>content\<close>, the stored judgment is its stripped text if that is
  \<open>Yes\<close> or \<open>No\<close>, and \<open>No\<close> otherwise.
\<close>

lemma call_agent2_Inr:
  assumes "call_agent2 invoke st = Inr (cmd, st')"
  shows "\<exists>r. final_content (invoke (agent2_instructions st)) = Inr r \<and>
           st' = st\<lparr>agent2_judgment := Some (if strip r \<in> {Yes, No} then strip r else No),
                    debug_info := debug_info st @
                      [lit ''[Agent2] judged = '' @ (if strip r \<in> {Yes, No} then strip r else No)]\<rparr> \<and>
           cmd = \<lparr>goto = Router1,
                  update = no_update\<lparr>upd_agent2_judgment := agent2_judgment st',
                                     upd_debug_info := Some (debug_info st')\<rparr>\<rparr>"
  using assms by (auto simp: call_agent2_def Let_def split: sum.splits)

lemma call_agent4_Inr:
  assumes "call_agent4 js invoke st = Inr (cmd, st')"
  shows "\<exists>r. final_content (invoke (agent4_instructions js st)) = Inr r \<and>
           st' = st\<lparr>agent4_judgment := Some (if strip r \<in> {Yes, No} then strip r else No),
                    debug_info := debug_info st @
                      [lit ''[Agent4] judged = '' @ (if strip r \<in> {Yes, No} then strip r else No)]\<rparr> \<and>
           cmd = \<lparr>goto = Router2,
                  update = no_update\<lparr>upd_agent4_judgment := agent4_judgment st',
                                     upd_debug_info := Some (debug_info st')\<rparr>\<rparr>"
  using assms by (auto simp: call_agent4_def Let_def split: sum.splits)

lemma call_agent2_reply_with:
  "call_agent2 (reply_with a) st =
     Inr (\<lparr>goto = Router1,
           update = no_update\<lparr>upd_agent2_judgment := Some (if strip a \<in> {Yes, No} then strip a else No),
             upd_debug_info := Some (debug_info st @
               [lit ''[Agent2] judged = '' @ (if strip a \<in> {Yes, No} then strip a else No)])\<rparr>\<rparr>,
          st\<lparr>agent2_judgment := Some (if strip a \<in> {Yes, No} then strip a else No),
             debug_info := debug_info st @
               [lit ''[Agent2] judged = '' @ (if strip a \<in> {Yes, No} then strip a else No)]\<rparr>)"
  by (simp add: call_agent2_def Let_def final_content_reply_with)

lemma call_agent4_reply_with:
  "call_agent4 js (reply_with a) st =
     Inr (\<lparr>goto = Router2,
           update = no_update\<lparr>upd_agent4_judgment := Some (if strip a \<in> {Yes, No} then strip a else No),
             upd_debug_info := Some (debug_info st @
               [lit ''[Agent4] judged = '' @ (if strip a \<in> {Yes, No} then strip a else No)])\<rparr>\<rparr>,
          st\<lparr>agent4_judgment := Some (if strip a \<in> {Yes, No} then strip a else No),
             debug_info := debug_info st @
               [lit ''[Agent4] judged = '' @ (if strip a \<in> {Yes, No} then strip a else No)]\<rparr>)"
  by (simp add: call_agent4_def Let_def final_content_reply_with)

text \<open>
  Claim C1, as stated, fails: the claim has every response outside \<open>{"Yes", "No"}\<close>
  replaced by \<open>"No"\<close>, but the nodes strip the response first.  The response
  \<open>" Yes "\<close> is outside the set and is stored as \<open>"Yes"\<close>, by \<open>call_agent2\<close> and by
  \<open>call_agent4\<close>.
\<close>

theorem verdict_kept_after_strip:
  "lit '' Yes '' \<notin> {Yes, No} \<and>
   stored_verdicts (call_agent2 (reply_with (lit '' Yes '')) (initial_state [])) = Inr (Some Yes, None) \<and>
   stored_verdicts (call_agent4 senmon_json (reply_with (lit '' Yes '')) (initial_state [])) = Inr (None, Some Yes)"
  using padded_Yes_outside
  by (simp add: call_agent2_reply_with call_agent4_reply_with strip_padded_Yes
      stored_verdicts_def initial_state_def)

text \<open>
  Claim C1, amended: whenever \<open>call_agent2\<close> (Classify) or \<open>call_agent4\<close> (Evaluate)
  returns, the judgment it has stored, in the state and in the update of its command, is
  \<open>"Yes"\<close> or \<open>"No"\<close> and nothing else; it is the collaborator's response stripped of
  surrounding white space when that is \<open>"Yes"\<close> or \<open>"No"\<close>, and \<open>"No"\<close> for every
  other response.
\<close>

theorem verdicts_normalised:
  "(call_agent2 invokeA st = Inr (cmdA, stA) \<longrightarrow>
      agent2_judgment stA \<in> {Some Yes, Some No} \<and>
      upd_agent2_judgment (update cmdA) = agent2_judgment stA \<and>
      (\<exists>r. final_content (invokeA (agent2_instructions st)) = Inr r \<and>
           agent2_judgment stA = Some (if strip r \<in> {Yes, No} then strip r else No))) \<and>
   (call_agent4 js invokeB st = Inr (cmdB, stB) \<longrightarrow>
      agent4_judgment stB \<in> {Some Yes, Some No} \<and>
      upd_agent4_judgment (update cmdB) = agent4_judgment stB \<and>
      (\<exists>r. final_content (invokeB (agent4_instructions js st)) = Inr r \<and>
           agent4_judgment stB = Some (if strip r \<in> {Yes, No} then strip r else No)))"
proof (intro conjI impI)
  assume "call_agent2 invokeA st = Inr (cmdA, stA)"
  from call_agent2_Inr [OF this] obtain r where
    r: "final_content (invokeA (agent2_instructions st)) = Inr r"
    and stA: "agent2_judgment stA = Some (if strip r \<in> {Yes, No} then strip r else No)"
    and cmdA: "upd_agent2_judgment (update cmdA) = agent2_judgment stA"
    by (auto simp: no_update_def)
  show "agent2_judgment stA \<in> {Some Yes, Some No}" using stA by auto
  show "upd_agent2_judgment (update cmdA) = agent2_judgment stA" by (rule cmdA)
  show "\<exists>r. final_content (invokeA (agent2_instructions st)) = Inr r \<and>
           agent2_judgment stA = Some (if strip r \<in> {Yes, No} then strip r else No)"
    using r stA by blast
next
  assume "call_agent4 js invokeB st = Inr (cmdB, stB)"
  from call_agent4_Inr [OF this] obtain r where
    r: "final_content (invokeB (agent4_instructions js st)) = Inr r"
    and stB: "agent4_judgment stB = Some (if strip r \<in> {Yes, No} then strip r else No)"
    and cmdB: "upd_agent4_judgment (update cmdB) = agent4_judgment stB"
    by (auto simp: no_update_def)
  show "agent4_judgment stB \<in> {Some Yes, Some No}" using stB by auto
  show "upd_agent4_judgment (update cmdB) = agent4_judgment stB" by (rule cmdB)
  show "\<exists>r. final_content (invokeB (agent4_instructions js st)) = Inr r \<and>
           agent4_judgment stB = Some (if strip r \<in> {Yes, No} then strip r else No)"
    using r stB by blast
qed

text \<open>
  The response \<open>"maybe"\<close> is stored as \<open>"No"\<close>, the response \<open>" Yes "\<close> as \<open>"Yes"\<close>.
\<close>

theorem verdicts_normalised_witness:
  "(\<exists>cmd st'. call_agent2 (reply_with (lit ''maybe'')) (initial_state []) = Inr (cmd, st') \<and>
       agent2_judgment st' = Some No \<and> upd_agent2_judgment (update cmd) = Some No) \<and>
   (\<exists>cmd st'. call_agent4 senmon_json (reply_with (lit '' Yes '')) (initial_state []) = Inr (cmd, st') \<and>
       agent4_judgment st' = Some Yes \<and> upd_agent4_judgment (update cmd) = Some Yes)"
proof -
  obtain cmdA stA where a: "call_agent2 (reply_with (lit ''maybe'')) (initial_state []) = Inr (cmdA, stA)"
    by (simp add: call_agent2_reply_with)
  obtain cmdB stB where b:
    "call_agent4 senmon_json (reply_with (lit '' Yes '')) (initial_state []) = Inr (cmdB, stB)"
    by (simp add: call_agent4_reply_with)
  have m: "strip (lit ''maybe'') = lit ''maybe''" "lit ''maybe'' \<notin> {Yes, No}"
    by (simp_all add: strip_def lit_def is_space_def Yes_def No_def)
  note n = verdicts_normalised [where invokeA = "reply_with (lit ''maybe'')" and st = "initial_state []"
      and cmdA = cmdA and stA = stA and js = senmon_json and invokeB = "reply_with (lit '' Yes '')"
      and cmdB = cmdB and stB = stB]
  from n a have "agent2_judgment stA = Some No \<and> upd_agent2_judgment (update cmdA) = Some No"
    using m by (auto simp: final_content_reply_with)
  moreover from n b have "agent4_judgment stB = Some Yes \<and> upd_agent4_judgment (update cmdB) = Some Yes"
    by (auto simp: final_content_reply_with strip_padded_Yes)
  ultimately show ?thesis using a b by simp
qed

section \<open>The routers\<close>

text \<open>
  The successor each router names.
\<close>

lemma router1_goto: "goto (fst (router1 st)) = (if agent2_judgment st = Some Yes then Prompt1 else Agent3)"
  by (simp add: router1_def Let_def)

lemma router2_goto: "goto (fst (router2 st)) = (if agent4_judgment st = Some Yes then END else Prompt2)"
  by (simp add: router2_def Let_def)

text \<open>
  Claim C2: the successor \<open>router1\<close> names depends on \<open>agent2_judgment\<close> only; it is
  \<open>prompt1\<close> (Draft) for the verdict \<open>"Yes"\<close> and \<open>agent3\<close> (Gather) for the verdict
  \<open>"No"\<close>, and for every value of the field, unset included, it is one of these two.
\<close>

theorem router1_routes_by_verdict:
  "goto (fst (router1 st)) \<in> {Prompt1, Agent3} \<and>
   (agent2_judgment st = Some Yes \<longrightarrow> goto (fst (router1 st)) = Prompt1) \<and>
   (agent2_judgment st = Some No \<longrightarrow> goto (fst (router1 st)) = Agent3) \<and>
   (agent2_judgment st \<noteq> Some Yes \<longrightarrow> goto (fst (router1 st)) = Agent3) \<and>
   (agent2_judgment st = agent2_judgment st' \<longrightarrow> goto (fst (router1 st)) = goto (fst (router1 st')))"
  using Yes_neq_No by (simp add: router1_goto)

text \<open>
  The three values of the classification verdict.
\<close>

theorem router1_routes_by_verdict_witness:
  "goto (fst (router1 ((initial_state [])\<lparr>agent2_judgment := Some Yes\<rparr>))) = Prompt1 \<and>
   goto (fst (router1 ((initial_state [])\<lparr>agent2_judgment := Some No\<rparr>))) = Agent3 \<and>
   goto (fst (router1 (initial_state []))) = Agent3"
  using router1_routes_by_verdict [of "(initial_state [])\<lparr>agent2_judgment := Some Yes\<rparr>"]
    router1_routes_by_verdict [of "(initial_state [])\<lparr>agent2_judgment := Some No\<rparr>"]
    router1_routes_by_verdict [of "initial_state []"]
  by (simp add: initial_state_def)

text \<open>
  Claim C3: the successor \<open>router2\<close> names depends on \<open>agent4_judgment\<close> only; it is
  \<open>END\<close> for the verdict \<open>"Yes"\<close> and \<open>prompt2\<close> (Refine) for the verdict \<open>"No"\<close>, and
  for every value of the field it is one of these two.
\<close>

theorem router2_routes_by_verdict:
  "goto (fst (router2 st)) \<in> {END, Prompt2} \<and>
   (agent4_judgment st = Some Yes \<longrightarrow> goto (fst (router2 st)) = END) \<and>
   (agent4_judgment st = Some No \<longrightarrow> goto (fst (router2 st)) = Prompt2) \<and>
   (agent4_judgment st \<noteq> Some Yes \<longrightarrow> goto (fst (router2 st)) = Prompt2) \<and>
   (agent4_judgment st = agent4_judgment st' \<longrightarrow> goto (fst (router2 st)) = goto (fst (router2 st')))"
  using Yes_neq_No by (simp add: router2_goto)

text \<open>
  The three values of the evaluation verdict.
\<close>

theorem router2_routes_by_verdict_witness:
  "goto (fst (router2 ((initial_state [])\<lparr>agent4_judgment := Some Yes\<rparr>))) = END \<and>
   goto (fst (router2 ((initial_state [])\<lparr>agent4_judgment := Some No\<rparr>))) = Prompt2 \<and>
   goto (fst (router2 (initial_state []))) = Prompt2"
  using router2_routes_by_verdict [of "(initial_state [])\<lparr>agent4_judgment := Some Yes\<rparr>"]
    router2_routes_by_verdict [of "(initial_state [])\<lparr>agent4_judgment := Some No\<rparr>"]
    router2_routes_by_verdict [of "initial_state []"]
  by (simp add: initial_state_def)

section \<open>The query buffer\<close>

text \<open>
  Every node leaves the old query at the front of the new one, and the \<open>query\<close> key of
  its update, when present, holds the new query.
\<close>

lemma node_step_query:
  assumes "node_step js c cfg = Inr (cmd, st')"
  shows "prefix (query (state cfg)) (query st') \<and>
         (upd_query (update cmd) = None \<and> query st' = query (state cfg) \<or>
          upd_query (update cmd) = Some (query st'))"
proof (cases "at_node cfg")
  case Agent1
  with assms show ?thesis
    by (auto simp: node_step_def call_agent1_def Let_def no_update_def split: sum.splits)
next
  case Agent2
  with assms show ?thesis
    by (auto simp: node_step_def call_agent2_def Let_def no_update_def split: sum.splits)
next
  case Agent3
  with assms show ?thesis
    by (auto simp: node_step_def call_agent3_def Let_def no_update_def split: sum.splits)
next
  case Agent4
  with assms show ?thesis
    by (auto simp: node_step_def call_agent4_def Let_def no_update_def split: sum.splits)
next
  case Router1
  with assms show ?thesis
    by (auto simp: node_step_def router1_def Let_def no_update_def)
next
  case Router2
  with assms show ?thesis
    by (auto simp: node_step_def router2_def Let_def no_update_def split: if_splits)
next
  case Prompt1
  with assms show ?thesis
    by (auto simp: node_step_def prompt1_def Let_def no_update_def)
next
  case Prompt2
  with assms show ?thesis
    by (auto simp: node_step_def prompt2_def Let_def no_update_def)
next
  case START
  with assms show ?thesis by (simp add: node_step_def)
next
  case END
  with assms show ?thesis by (simp add: node_step_def)
qed

text \<open>
  Claim C4: for every node registered in the graph, the query after the node has the
  query before the node as a prefix and is never shorter; the \<open>query\<close> key of the node's
  update, when present, holds that new query, so the state after the update is merged
  has the same query.
\<close>

theorem query_append_only:
  assumes "node_step js c cfg = Inr (cmd, st')"
  shows "prefix (query (state cfg)) (query st') \<and>
         length (query (state cfg)) \<le> length (query st') \<and>
         (case upd_query (update cmd) of
            None \<Rightarrow> query st' = query (state cfg)
          | Some q \<Rightarrow> q = query st') \<and>
         query (apply_update st' (update cmd)) = query st' \<and>
         query (apply_update (state cfg) (update cmd)) = query st'"
  using node_step_query [OF assms] by (auto simp: apply_update_def prefix_length_le)

text \<open>
  The Refine node at the query \<open>q\<close>, with a chat model that answers \<open>better\<close>.
\<close>

theorem query_append_only_witness:
  "\<exists>cmd st'.
      node_step senmon_json (constant_collaborators [] [] [] [] (lit ''better''))
        \<lparr>at_node = Prompt2, state = initial_state (lit ''q''), clock = 0\<rparr> = Inr (cmd, st') \<and>
      query st' = lit ''q'' @ NL @ lit ''[Prompt2 refined answer]:'' @ NL @ lit ''better'' \<and>
      prefix (lit ''q'') (query st')"
proof -
  have b: "strip (lit ''better'') = lit ''better''"
    by (simp add: strip_def lit_def is_space_def)
  obtain cmd st' where a:
    "node_step senmon_json (constant_collaborators [] [] [] [] (lit ''better''))
        \<lparr>at_node = Prompt2, state = initial_state (lit ''q''), clock = 0\<rparr> = Inr (cmd, st')"
    by (cases "prompt2 (chat_model (constant_collaborators [] [] [] [] (lit ''better'')) 0)
                 (initial_state (lit ''q''))") (simp add: node_step_def)
  then have "query st' = lit ''q'' @ NL @ lit ''[Prompt2 refined answer]:'' @ NL @ lit ''better''"
    by (auto simp: node_step_def prompt2_def Let_def constant_collaborators_def b initial_state_sel)
  with a query_append_only [OF a] show ?thesis
    by (simp add: initial_state_sel)
qed

section \<open>The Evaluate node and its tools\<close>

text \<open>
  The two fields of the dictionary \<open>call_agent4\<close> serialises.
\<close>

lemma agent4_data_getitem:
  "py_getitem (agent4_data st) (lit ''query'') = Inr (JString (query st))"
  "py_getitem (agent4_data st) (lit ''answer_candidate'') = Inr (JString (query st))"
  by (simp_all add: agent4_data_def lit_def)



lemma senmon_json_tool2:
  "agent4_tool2_check_technical_words senmon_json (agent4_data_json senmon_json (initial_state senmon_yougo)) = Inr No"
  by (simp add: agent4_tool2_check_technical_words_def agent4_data_json_def senmon_json_def
      json_at_roundtrip agent4_data_getitem initial_state_sel senmon_yougo_def)

text \<open>
  Claim C6, as stated, fails: the node does not run the two checks, it stores what the
  collaborator answers.  For the query \<open>senmon_yougo\<close> the too-technical check returns
  \<open>"No"\<close> on the payload of the node, and a collaborator that answers \<open>"Yes"\<close> makes the
  node store the verdict \<open>"Yes"\<close>.
\<close>

theorem evaluate_accepts_against_check:
  "stored_verdicts (call_agent4 senmon_json (reply_with Yes) (initial_state senmon_yougo)) = Inr (None, Some Yes) \<and>
   agent4_tool2_check_technical_words senmon_json
     (agent4_data_json senmon_json (initial_state senmon_yougo)) = Inr No"
  by (simp add: senmon_json_tool2 call_agent4_reply_with strip_Yes stored_verdicts_def initial_state_sel)

text \<open>
  Claim C6, amended: the Evaluate node stores the verdict \<open>"Yes"\<close> if and only if the
  final answer of the evaluation collaborator, stripped of surrounding white space, is
  \<open>"Yes"\<close>; every other answer gives the verdict \<open>"No"\<close>.  Combining the two checks is
  left to the collaborator.
\<close>

theorem evaluate_verdict_is_collaborators_answer:
  assumes "call_agent4 js invoke st = Inr (cmd, st')"
  shows "(agent4_judgment st' = Some Yes \<longleftrightarrow>
            (\<exists>r. final_content (invoke (agent4_instructions js st)) = Inr r \<and> strip r = Yes)) \<and>
         (agent4_judgment st' \<noteq> Some Yes \<longrightarrow> agent4_judgment st' = Some No)"
proof -
  from call_agent4_Inr [OF assms] obtain r where
    r: "final_content (invoke (agent4_instructions js st)) = Inr r"
    and j: "agent4_judgment st' = Some (if strip r \<in> {Yes, No} then strip r else No)"
    by auto
  show ?thesis
  proof (cases "strip r = Yes")
    case True
    with r j show ?thesis by auto
  next
    case False
    with j have "agent4_judgment st' = Some No" by auto
    with r False Yes_neq_No show ?thesis by auto
  qed
qed

text \<open>
  A collaborator that answers \<open>"Yes"\<close>.
\<close>

theorem evaluate_verdict_is_collaborators_answer_witness:
  "\<exists>cmd st'. call_agent4 senmon_json (reply_with Yes) (initial_state senmon_yougo) = Inr (cmd, st') \<and>
      agent4_judgment st' = Some Yes"
proof -
  obtain cmd st' where a:
    "call_agent4 senmon_json (reply_with Yes) (initial_state senmon_yougo) = Inr (cmd, st')"
    by (simp add: call_agent4_reply_with)
  from evaluate_verdict_is_collaborators_answer [OF a]
  have "agent4_judgment st' = Some Yes"
    by (simp add: final_content_reply_with strip_Yes)
  with a show ?thesis by blast
qed

text \<open>
  Claim C10: on the payload \<open>call_agent4\<close> builds, where \<open>answer_candidate\<close> and
  \<open>query\<close> are the same string, \<open>agent4_tool1_check_unanswered\<close> returns \<open>"Yes"\<close> for
  every state, provided the \<open>json\<close> module reads back what it has written.
\<close>

theorem unanswered_check_always_yes:
  assumes "loads js (dumps js (agent4_data st)) = Inr (agent4_data st)"
  shows "agent4_tool1_check_unanswered js (agent4_data_json js st) = Inr Yes"
  using assms
  by (simp add: agent4_tool1_check_unanswered_def agent4_data_json_def agent4_data_getitem)

text \<open>
  A query that contains the keyword of the check.
\<close>

theorem unanswered_check_always_yes_witness:
  "loads kuwashiku_json (dumps kuwashiku_json (agent4_data (initial_state kuwashiku)))
     = Inr (agent4_data (initial_state kuwashiku)) \<and>
   str_contains kuwashiku (query (initial_state kuwashiku)) \<and>
   agent4_tool1_check_unanswered kuwashiku_json
     (agent4_data_json kuwashiku_json (initial_state kuwashiku)) = Inr Yes"
proof -
  have r: "loads kuwashiku_json (dumps kuwashiku_json (agent4_data (initial_state kuwashiku)))
     = Inr (agent4_data (initial_state kuwashiku))"
    by (simp add: kuwashiku_json_def json_at_roundtrip)
  have "str_contains kuwashiku (query (initial_state kuwashiku))"
    by (simp add: initial_state_def kuwashiku_def)
  with r unanswered_check_always_yes [OF r] show ?thesis by simp
qed

section \<open>The executor\<close>

text \<open>
  Fuel only bounds the model: a run that has finished stays finished with more fuel, and
  a run of \<open>n + m\<close> steps is a run of \<open>n\<close> steps followed by a run of \<open>m\<close> steps.
\<close>

lemma run_graph_at_END: "at_node cfg = END \<Longrightarrow> run_graph js c n cfg = Finished (state cfg)"
  by (cases n) simp_all

lemma run_graph_add:
  "run_graph js c (n + m) cfg =
     (case run_graph js c n cfg of
        OutOfFuel cfg' \<Rightarrow> run_graph js c m cfg'
      | Finished f \<Rightarrow> Finished f
      | Raised e \<Rightarrow> Raised e)"
proof (induction n arbitrary: cfg)
  case 0
  then show ?case by (simp add: run_graph_at_END)
next
  case (Suc n)
  then show ?case by (simp split: sum.splits prod.splits)
qed


text \<open>Along a whole run the query only grows at its end.\<close>

lemma run_query_prefix:
  "(case run_graph js c n cfg of
      Finished f \<Rightarrow> prefix (query (state cfg)) (query f)
    | OutOfFuel cfg' \<Rightarrow> prefix (query (state cfg)) (query (state cfg'))
    | Raised e \<Rightarrow> True)"
proof (induction n arbitrary: cfg)
  case 0
  then show ?case by simp
next
  case (Suc n)
  show ?case
  proof (cases "at_node cfg = END")
    case True
    then show ?thesis by simp
  next
    case False
    show ?thesis
    proof (cases "node_step js c cfg")
      case (Inl e)
      with False show ?thesis by simp
    next
      case (Inr r)
      obtain cmd st' where r: "r = (cmd, st')" by (cases r)
      let ?next = "\<lparr>at_node = goto cmd, state = apply_update st' (update cmd), clock = Suc (clock cfg)\<rparr>"
      from node_step_query [OF Inr [unfolded r]]
      have p: "prefix (query (state cfg)) (query (state ?next))"
        by (auto simp: apply_update_def)
      show ?thesis
      proof (cases "(at_node cfg, goto cmd) \<in> set edges")
        case False
        with \<open>at_node cfg \<noteq> END\<close> Inr r show ?thesis by simp
      next
        case True
        with \<open>at_node cfg \<noteq> END\<close> Inr r
        have "run_graph js c (Suc n) cfg = run_graph js c n ?next" by simp
        with Suc.IH [of ?next] p show ?thesis
          by (auto split: outcome.splits intro: prefix_order.trans)
      qed
    qed
  qed
qed







text \<open>
  Whether or not a collaborator fails: a node never names \<open>END\<close> while the verdict of
  the evaluator is not \<open>Yes\<close>, so the run does not finish.
\<close>

lemma step_keeps_rejection:
  assumes rej: "\<forall>t p r. final_content (agent4_graph c t p) = Inr r \<longrightarrow> strip r \<noteq> Yes"
    and step: "node_step js c cfg = Inr (cmd, st')"
    and v: "at_node cfg = Router2 \<longrightarrow> agent4_judgment (state cfg) \<noteq> Some Yes"
  shows "goto cmd \<noteq> END \<and>
         (goto cmd = Router2 \<longrightarrow> agent4_judgment (apply_update st' (update cmd)) \<noteq> Some Yes)"
proof (cases "at_node cfg")
  case Agent1
  with step show ?thesis
    by (auto simp: node_step_def call_agent1_def Let_def split: sum.splits)
next
  case Agent2
  with step show ?thesis
    by (auto simp: node_step_def call_agent2_def Let_def split: sum.splits)
next
  case Agent3
  with step show ?thesis
    by (auto simp: node_step_def call_agent3_def Let_def split: sum.splits)
next
  case Agent4
  with step have s: "call_agent4 js (agent4_graph c (clock cfg)) (state cfg) = Inr (cmd, st')"
    by (simp add: node_step_def)
  from call_agent4_Inr [OF s] obtain r where
    r: "final_content (agent4_graph c (clock cfg) (agent4_instructions js (state cfg))) = Inr r"
    and st': "agent4_judgment st' = Some (if strip r \<in> {Yes, No} then strip r else No)"
    and cmd: "goto cmd = Router2" "upd_agent4_judgment (update cmd) = agent4_judgment st'"
    by (auto simp: no_update_def)
  from rej r have "strip r \<noteq> Yes" by blast
  with st' Yes_neq_No have "agent4_judgment st' \<noteq> Some Yes" by auto
  with cmd st' show ?thesis
    by (simp add: apply_update_def)
next
  case Router1
  with step have "router1 (state cfg) = (cmd, st')"
    by (simp add: node_step_def)
  with router1_goto [of "state cfg"]
  have "goto cmd = (if agent2_judgment (state cfg) = Some Yes then Prompt1 else Agent3)"
    by simp
  then show ?thesis by simp
next
  case Router2
  with step have "router2 (state cfg) = (cmd, st')"
    by (simp add: node_step_def)
  with router2_goto [of "state cfg"]
  have "goto cmd = (if agent4_judgment (state cfg) = Some Yes then END else Prompt2)"
    by simp
  with Router2 v show ?thesis by simp
next
  case Prompt1
  with step show ?thesis
    by (auto simp: node_step_def prompt1_def Let_def)
next
  case Prompt2
  with step show ?thesis
    by (auto simp: node_step_def prompt2_def Let_def)
next
  case START
  with step show ?thesis by (simp add: node_step_def)
next
  case END
  with step show ?thesis by (simp add: node_step_def)
qed

lemma never_finished:
  assumes rej: "\<forall>t p r. final_content (agent4_graph c t p) = Inr r \<longrightarrow> strip r \<noteq> Yes"
  shows "at_node cfg \<noteq> END \<Longrightarrow>
         (at_node cfg = Router2 \<longrightarrow> agent4_judgment (state cfg) \<noteq> Some Yes) \<Longrightarrow>
         run_graph js c n cfg \<noteq> Finished f"
proof (induction n arbitrary: cfg)
  case 0
  then show ?case by simp
next
  case (Suc n)
  show ?case
  proof (cases "node_step js c cfg")
    case (Inl e)
    with Suc.prems show ?thesis by simp
  next
    case (Inr r)
    obtain cmd st' where r: "r = (cmd, st')" by (cases r)
    from step_keeps_rejection [OF rej Inr [unfolded r] Suc.prems(2)]
    have k: "goto cmd \<noteq> END"
      "goto cmd = Router2 \<longrightarrow> agent4_judgment (apply_update st' (update cmd)) \<noteq> Some Yes"
      by simp_all
    let ?next = "\<lparr>at_node = goto cmd, state = apply_update st' (update cmd), clock = Suc (clock cfg)\<rparr>"
    from k have "run_graph js c n ?next \<noteq> Finished f"
      by (intro Suc.IH) simp_all
    with Suc.prems Inr r show ?thesis by simp
  qed
qed

text \<open>
  One step of the executor when the evaluation collaborator never answers \<open>Yes\<close> and no
  collaborator fails: the step is taken, it leads to a node of the loop, and it reaches
  \<open>router2\<close> only with a verdict other than \<open>Yes\<close>.
\<close>

lemma step_under_rejection:
  assumes rej: "\<forall>t p. \<exists>r. final_content (agent4_graph c t p) = Inr r \<and> strip r \<noteq> Yes"
    and a1: "\<forall>t p. \<exists>r. final_content (agent1_graph c t p) = Inr r"
    and a2: "\<forall>t p. \<exists>r. final_content (agent2_graph c t p) = Inr r"
    and a3: "\<forall>t p. \<exists>r. final_content (agent3_graph c t p) = Inr r"
    and n: "at_node cfg \<noteq> START" "at_node cfg \<noteq> END"
    and v: "at_node cfg = Router2 \<longrightarrow> agent4_judgment (state cfg) \<noteq> Some Yes"
  shows "\<exists>cfg'. run_graph js c (Suc 0) cfg = OutOfFuel cfg' \<and>
           at_node cfg' \<noteq> START \<and> at_node cfg' \<noteq> END \<and>
           (at_node cfg' = Router2 \<longrightarrow> agent4_judgment (state cfg') \<noteq> Some Yes) \<and>
           (at_node cfg, at_node cfg') \<in> set edges"
proof (cases "at_node cfg")
  case Agent1
  from a1 obtain r where
    "final_content (agent1_graph c (clock cfg) (agent1_instructions (state cfg))) = Inr r"
    by blast
  with Agent1 show ?thesis
    by (simp add: node_step_def call_agent1_def Let_def edges_def)
next
  case Agent2
  from a2 obtain r where
    "final_content (agent2_graph c (clock cfg) (agent2_instructions (state cfg))) = Inr r"
    by blast
  with Agent2 show ?thesis
    by (simp add: node_step_def call_agent2_def Let_def edges_def)
next
  case Agent3
  from a3 obtain r where
    "final_content (agent3_graph c (clock cfg) (agent3_instructions (state cfg))) = Inr r"
    by blast
  with Agent3 show ?thesis
    by (simp add: node_step_def call_agent3_def Let_def edges_def)
next
  case Agent4
  from rej obtain r where
    "final_content (agent4_graph c (clock cfg) (agent4_instructions js (state cfg))) = Inr r"
    and "strip r \<noteq> Yes"
    by blast
  with Agent4 Yes_neq_No show ?thesis
    by (auto simp: node_step_def call_agent4_def Let_def edges_def apply_update_def no_update_def)
next
  case Router1
  then show ?thesis
    by (simp add: node_step_def router1_def Let_def edges_def)
next
  case Router2
  with v show ?thesis
    by (simp add: node_step_def router2_def Let_def edges_def)
next
  case Prompt1
  then show ?thesis
    by (simp add: node_step_def prompt1_def Let_def edges_def)
next
  case Prompt2
  then show ?thesis
    by (simp add: node_step_def prompt2_def Let_def edges_def)
next
  case START
  with n show ?thesis by simp
next
  case END
  with n show ?thesis by simp
qed

lemma steps_under_rejection:
  assumes rej: "\<forall>t p. \<exists>r. final_content (agent4_graph c t p) = Inr r \<and> strip r \<noteq> Yes"
    and a1: "\<forall>t p. \<exists>r. final_content (agent1_graph c t p) = Inr r"
    and a2: "\<forall>t p. \<exists>r. final_content (agent2_graph c t p) = Inr r"
    and a3: "\<forall>t p. \<exists>r. final_content (agent3_graph c t p) = Inr r"
  shows "at_node cfg \<noteq> START \<Longrightarrow> at_node cfg \<noteq> END \<Longrightarrow>
         (at_node cfg = Router2 \<longrightarrow> agent4_judgment (state cfg) \<noteq> Some Yes) \<Longrightarrow>
         \<exists>cfg'. run_graph js c n cfg = OutOfFuel cfg' \<and>
           at_node cfg' \<noteq> START \<and> at_node cfg' \<noteq> END \<and>
           (at_node cfg' = Router2 \<longrightarrow> agent4_judgment (state cfg') \<noteq> Some Yes)"
proof (induction n arbitrary: cfg)
  case 0
  then show ?case by simp
next
  case (Suc n)
  from step_under_rejection [OF rej a1 a2 a3 Suc.prems] obtain cfg1 where
    s: "run_graph js c (Suc 0) cfg = OutOfFuel cfg1 \<and>
        at_node cfg1 \<noteq> START \<and> at_node cfg1 \<noteq> END \<and>
        (at_node cfg1 = Router2 \<longrightarrow> agent4_judgment (state cfg1) \<noteq> Some Yes) \<and>
        (at_node cfg, at_node cfg1) \<in> set edges" ..
  from s have one: "run_graph js c (Suc 0) cfg = OutOfFuel cfg1" ..
  from s have inv: "at_node cfg1 \<noteq> START" "at_node cfg1 \<noteq> END"
      "at_node cfg1 = Router2 \<longrightarrow> agent4_judgment (state cfg1) \<noteq> Some Yes"
    by simp_all
  have "run_graph js c (Suc n) cfg = run_graph js c n cfg1"
    using run_graph_add [of js c "Suc 0" n cfg] one by simp
  with Suc.IH [OF inv] show ?case by simp
qed

text \<open>From every node of the loop the run comes to \<open>prompt2\<close>.\<close>

lemma refine_reached:
  assumes rej: "\<forall>t p. \<exists>r. final_content (agent4_graph c t p) = Inr r \<and> strip r \<noteq> Yes"
    and a1: "\<forall>t p. \<exists>r. final_content (agent1_graph c t p) = Inr r"
    and a2: "\<forall>t p. \<exists>r. final_content (agent2_graph c t p) = Inr r"
    and a3: "\<forall>t p. \<exists>r. final_content (agent3_graph c t p) = Inr r"
  shows "at_node cfg \<noteq> START \<Longrightarrow> at_node cfg \<noteq> END \<Longrightarrow>
         (at_node cfg = Router2 \<longrightarrow> agent4_judgment (state cfg) \<noteq> Some Yes) \<Longrightarrow>
         \<exists>k cfg'. run_graph js c k cfg = OutOfFuel cfg' \<and> at_node cfg' = Prompt2"
proof -
  define hops :: "node \<Rightarrow> nat" where
    "hops = (\<lambda>x. case x of Prompt2 \<Rightarrow> 0 | Router2 \<Rightarrow> 1 | Agent4 \<Rightarrow> 2 | Prompt1 \<Rightarrow> 3
               | Agent3 \<Rightarrow> 4 | Router1 \<Rightarrow> 5 | Agent2 \<Rightarrow> 6 | Agent1 \<Rightarrow> 7 | _ \<Rightarrow> 8)"
  show "at_node cfg \<noteq> START \<Longrightarrow> at_node cfg \<noteq> END \<Longrightarrow>
         (at_node cfg = Router2 \<longrightarrow> agent4_judgment (state cfg) \<noteq> Some Yes) \<Longrightarrow>
         \<exists>k cfg'. run_graph js c k cfg = OutOfFuel cfg' \<and> at_node cfg' = Prompt2"
  proof (induction "hops (at_node cfg)" arbitrary: cfg rule: less_induct)
    case less
    show ?case
    proof (cases "at_node cfg = Prompt2")
      case True
      then have "run_graph js c 0 cfg = OutOfFuel cfg" by simp
      with True show ?thesis by blast
    next
      case False
      from step_under_rejection [OF rej a1 a2 a3 less.prems] obtain cfg1 where
        s: "run_graph js c (Suc 0) cfg = OutOfFuel cfg1 \<and>
            at_node cfg1 \<noteq> START \<and> at_node cfg1 \<noteq> END \<and>
            (at_node cfg1 = Router2 \<longrightarrow> agent4_judgment (state cfg1) \<noteq> Some Yes) \<and>
            (at_node cfg, at_node cfg1) \<in> set edges" ..
      from s have one: "run_graph js c (Suc 0) cfg = OutOfFuel cfg1" ..
      from s have inv: "at_node cfg1 \<noteq> START" "at_node cfg1 \<noteq> END"
          "at_node cfg1 = Router2 \<longrightarrow> agent4_judgment (state cfg1) \<noteq> Some Yes"
        by simp_all
      from s have edge: "(at_node cfg, at_node cfg1) \<in> set edges" by simp
      from edge False inv(2) less.prems(1) have "hops (at_node cfg1) < hops (at_node cfg)"
        by (auto simp: hops_def edges_def)
      from less.hyps [OF this inv] obtain k cfg' where
        k: "run_graph js c k cfg1 = OutOfFuel cfg'" "at_node cfg' = Prompt2"
        by blast
      have "run_graph js c (Suc k) cfg = run_graph js c k cfg1"
        using run_graph_add [of js c "Suc 0" k cfg] one by simp
      with k have "run_graph js c (Suc k) cfg = OutOfFuel cfg' \<and> at_node cfg' = Prompt2"
        by simp
      then show ?thesis by blast
    qed
  qed
qed


text \<open>
  When no collaborator fails, the run is still going after any number of nodes, and later
  than any \<open>n\<close> it goes once more from \<open>prompt2\<close> to \<open>agent2\<close>.
\<close>

lemma rejecting_run_cycles:
  assumes rej: "\<forall>t p. \<exists>r. final_content (agent4_graph c t p) = Inr r \<and> strip r \<noteq> Yes"
    and a1: "\<forall>t p. \<exists>r. final_content (agent1_graph c t p) = Inr r"
    and a2: "\<forall>t p. \<exists>r. final_content (agent2_graph c t p) = Inr r"
    and a3: "\<forall>t p. \<exists>r. final_content (agent3_graph c t p) = Inr r"
  shows "(\<forall>n. \<exists>cfg. run_graph js c n (start_config st) = OutOfFuel cfg \<and> at_node cfg \<noteq> END) \<and>
         (\<forall>n. \<exists>k cfg cfg'. n \<le> k \<and>
            run_graph js c k (start_config st) = OutOfFuel cfg \<and> at_node cfg = Prompt2 \<and>
            run_graph js c (Suc k) (start_config st) = OutOfFuel cfg' \<and> at_node cfg' = Agent2)"
proof (intro conjI allI)
  have start: "at_node (start_config st) \<noteq> START" "at_node (start_config st) \<noteq> END"
    "at_node (start_config st) = Router2 \<longrightarrow> agent4_judgment (state (start_config st)) \<noteq> Some Yes"
    by (simp_all add: start_config_def)
  fix n
  from steps_under_rejection [OF rej a1 a2 a3 start, of js n] obtain cfgn where
    n: "run_graph js c n (start_config st) = OutOfFuel cfgn \<and>
        at_node cfgn \<noteq> START \<and> at_node cfgn \<noteq> END \<and>
        (at_node cfgn = Router2 \<longrightarrow> agent4_judgment (state cfgn) \<noteq> Some Yes)" ..
  then show "\<exists>cfg. run_graph js c n (start_config st) = OutOfFuel cfg \<and> at_node cfg \<noteq> END"
    by blast
  from n have invn: "at_node cfgn \<noteq> START" "at_node cfgn \<noteq> END"
    "at_node cfgn = Router2 \<longrightarrow> agent4_judgment (state cfgn) \<noteq> Some Yes"
    by simp_all
  from refine_reached [OF rej a1 a2 a3 invn, of js] obtain j cfg where
    j: "run_graph js c j cfgn = OutOfFuel cfg" "at_node cfg = Prompt2"
    by blast
  have k: "run_graph js c (n + j) (start_config st) = OutOfFuel cfg"
    using n j(1) by (simp add: run_graph_add)
  from steps_under_rejection [OF rej a1 a2 a3 start, of js "n + j"] k
  have invk: "at_node cfg \<noteq> START" "at_node cfg \<noteq> END"
    "at_node cfg = Router2 \<longrightarrow> agent4_judgment (state cfg) \<noteq> Some Yes"
    by simp_all
  from step_under_rejection [OF rej a1 a2 a3 invk, of js] obtain cfg' where
    s: "run_graph js c (Suc 0) cfg = OutOfFuel cfg' \<and>
        at_node cfg' \<noteq> START \<and> at_node cfg' \<noteq> END \<and>
        (at_node cfg' = Router2 \<longrightarrow> agent4_judgment (state cfg') \<noteq> Some Yes) \<and>
        (at_node cfg, at_node cfg') \<in> set edges" ..
  with j(2) have "at_node cfg' = Agent2"
    by (auto simp: edges_def)
  moreover have "run_graph js c (Suc (n + j)) (start_config st) = OutOfFuel cfg'"
    using run_graph_add [of js c "n + j" "Suc 0" "start_config st"] k s by simp
  ultimately have "n \<le> n + j \<and> run_graph js c (n + j) (start_config st) = OutOfFuel cfg \<and>
      at_node cfg = Prompt2 \<and>
      run_graph js c (Suc (n + j)) (start_config st) = OutOfFuel cfg' \<and> at_node cfg' = Agent2"
    using k j(2) by simp
  then show "\<exists>k cfg cfg'. n \<le> k \<and>
            run_graph js c k (start_config st) = OutOfFuel cfg \<and> at_node cfg = Prompt2 \<and>
            run_graph js c (Suc k) (start_config st) = OutOfFuel cfg' \<and> at_node cfg' = Agent2"
    by blast
qed

text \<open>
  Claim C7: the executor has no step limit, so when the evaluation collaborator never
  answers \<open>Yes\<close> the run does not reach the terminal node, whatever bound the model is
  given; and when no collaborator fails, whatever the number \<open>n\<close> of nodes executed, the
  run is still at a node other than \<open>END\<close>, and later than any \<open>n\<close> it goes once more
  from \<open>prompt2\<close> (Refine) to \<open>agent2\<close> (Classify).
\<close>

theorem rejecting_evaluator_runs_forever:
  assumes rej: "\<forall>t p r. final_content (agent4_graph c t p) = Inr r \<longrightarrow> strip r \<noteq> Yes"
  shows "(\<forall>n f. run_graph js c n (start_config st) \<noteq> Finished f) \<and>
         ((\<forall>t p. \<exists>r. final_content (agent1_graph c t p) = Inr r) \<and>
          (\<forall>t p. \<exists>r. final_content (agent2_graph c t p) = Inr r) \<and>
          (\<forall>t p. \<exists>r. final_content (agent3_graph c t p) = Inr r) \<and>
          (\<forall>t p. \<exists>r. final_content (agent4_graph c t p) = Inr r) \<longrightarrow>
          (\<forall>n. \<exists>cfg. run_graph js c n (start_config st) = OutOfFuel cfg \<and> at_node cfg \<noteq> END) \<and>
          (\<forall>n. \<exists>k cfg cfg'. n \<le> k \<and>
             run_graph js c k (start_config st) = OutOfFuel cfg \<and> at_node cfg = Prompt2 \<and>
             run_graph js c (Suc k) (start_config st) = OutOfFuel cfg' \<and> at_node cfg' = Agent2))"
proof (intro conjI impI allI)
  fix n f
  show "run_graph js c n (start_config st) \<noteq> Finished f"
    by (rule never_finished [OF rej]) (simp_all add: start_config_def)
next
  assume a: "(\<forall>t p. \<exists>r. final_content (agent1_graph c t p) = Inr r) \<and>
          (\<forall>t p. \<exists>r. final_content (agent2_graph c t p) = Inr r) \<and>
          (\<forall>t p. \<exists>r. final_content (agent3_graph c t p) = Inr r) \<and>
          (\<forall>t p. \<exists>r. final_content (agent4_graph c t p) = Inr r)"
  from a rej have rej': "\<forall>t p. \<exists>r. final_content (agent4_graph c t p) = Inr r \<and> strip r \<noteq> Yes"
    by metis
  from a have a1: "\<forall>t p. \<exists>r. final_content (agent1_graph c t p) = Inr r"
    and a2: "\<forall>t p. \<exists>r. final_content (agent2_graph c t p) = Inr r"
    and a3: "\<forall>t p. \<exists>r. final_content (agent3_graph c t p) = Inr r"
    by simp_all
  note cycles = rejecting_run_cycles [OF rej' a1 a2 a3, of js st]
  fix n
  from cycles show "\<exists>cfg. run_graph js c n (start_config st) = OutOfFuel cfg \<and> at_node cfg \<noteq> END"
    by blast
  from cycles show "\<exists>k cfg cfg'. n \<le> k \<and>
             run_graph js c k (start_config st) = OutOfFuel cfg \<and> at_node cfg = Prompt2 \<and>
             run_graph js c (Suc k) (start_config st) = OutOfFuel cfg' \<and> at_node cfg' = Agent2"
    by blast
qed

section \<open>Two concrete runs\<close>

lemma strip_plain:
  "strip (lit ''ok'') = lit ''ok''" "strip (lit ''info'') = lit ''info''"
  "strip (lit ''draft'') = lit ''draft''"
  by (simp_all add: strip_def lit_def is_space_def)

text \<open>
  With a classifier and an evaluator that answer \<open>Yes\<close> the run ends after six nodes, and
  the \<open>messages\<close> field of the initial state makes no difference.
\<close>

lemma six_steps: "(6::nat) = Suc (Suc (Suc (Suc (Suc (Suc 0)))))"
  by simp



text \<open>
  With an evaluator that answers \<open>No\<close> the run is at \<open>prompt2\<close> after six nodes and never
  ends.
\<close>

theorem rejecting_evaluator_runs_forever_witness:
  "(\<forall>t p. \<exists>r. final_content
       (agent4_graph (constant_collaborators (lit ''ok'') Yes (lit ''info'') No (lit ''draft'')) t p) = Inr r
       \<and> strip r \<noteq> Yes) \<and>
   (\<forall>n f. run_graph senmon_json
       (constant_collaborators (lit ''ok'') Yes (lit ''info'') No (lit ''draft''))
       n (start_config (initial_state (lit ''q''))) \<noteq> Finished f) \<and>
   (\<forall>n. \<exists>cfg. run_graph senmon_json
       (constant_collaborators (lit ''ok'') Yes (lit ''info'') No (lit ''draft''))
       n (start_config (initial_state (lit ''q''))) = OutOfFuel cfg \<and> at_node cfg \<noteq> END) \<and>
   (\<exists>cfg. run_graph senmon_json
       (constant_collaborators (lit ''ok'') Yes (lit ''info'') No (lit ''draft''))
       6 (start_config (initial_state (lit ''q''))) = OutOfFuel cfg \<and> at_node cfg = Prompt2)"
proof -
  let ?c = "constant_collaborators (lit ''ok'') Yes (lit ''info'') No (lit ''draft'')"
  have rej: "\<forall>t p. \<exists>r. final_content (agent4_graph ?c t p) = Inr r \<and> strip r \<noteq> Yes"
    using Yes_neq_No by (simp add: constant_collaborators_def final_content_reply_with strip_No)
  then have rej': "\<forall>t p r. final_content (agent4_graph ?c t p) = Inr r \<longrightarrow> strip r \<noteq> Yes"
    by (metis Inr_inject)
  have a: "(\<forall>t p. \<exists>r. final_content (agent1_graph ?c t p) = Inr r) \<and>
          (\<forall>t p. \<exists>r. final_content (agent2_graph ?c t p) = Inr r) \<and>
          (\<forall>t p. \<exists>r. final_content (agent3_graph ?c t p) = Inr r) \<and>
          (\<forall>t p. \<exists>r. final_content (agent4_graph ?c t p) = Inr r)"
    by (simp add: constant_collaborators_def final_content_reply_with)
  have six: "\<exists>cfg. run_graph senmon_json ?c 6 (start_config (initial_state (lit ''q''))) = OutOfFuel cfg
      \<and> at_node cfg = Prompt2"
    using Yes_neq_No unfolding six_steps
    by (simp add: start_config_def node_step_def constant_collaborators_def
      call_agent1_def call_agent2_def call_agent4_def prompt1_def router1_def router2_def
      final_content_reply_with Let_def strip_Yes strip_No strip_plain edges_def apply_update_def
      no_update_def initial_state_def)
  note t = rejecting_evaluator_runs_forever [OF rej', of senmon_json "initial_state (lit ''q'')"]
  from t have never: "\<forall>n f. run_graph senmon_json ?c n (start_config (initial_state (lit ''q'')))
      \<noteq> Finished f"
    by (rule conjunct1)
  from t a have "\<forall>n. \<exists>cfg. run_graph senmon_json ?c n (start_config (initial_state (lit ''q''))) = OutOfFuel cfg
      \<and> at_node cfg \<noteq> END"
    by blast
  with rej never six show ?thesis by blast
qed

section \<open>The text-cleaning function\<close>

lemma py_lower_ascii:
  assumes "\<forall>ch\<in>set text. ch < 0x80"
  shows "py_lower u text = map (\<lambda>ch. if 0x41 \<le> ch \<and> ch \<le> 0x5A then ch + 0x20 else ch) text"
proof -
  let ?h = "\<lambda>ch::nat. if 0x41 \<le> ch \<and> ch \<le> 0x5A then ch + 0x20 else ch"
  have "py_lower u text = concat (map (\<lambda>i. [?h (text ! i)]) [0..<length text])"
    unfolding py_lower_def using assms
    by (intro arg_cong [where f = concat] map_cong) (auto simp: Let_def)
  also have "\<dots> = map (\<lambda>i. ?h (text ! i)) [0..<length text]"
    by (rule concat_map_singleton)
  also have "\<dots> = map ?h (map (nth text) [0..<length text])"
    by simp
  also have "\<dots> = map ?h text"
    by (simp only: map_nth)
  finally show ?thesis .
qed


text \<open>The fourteen substitutions on the empty string, on a single space and on \<open>(x)\<close>.\<close>

lemma substitutions_bracket:
  "re_sub (match_url u) (lit '' '') (lit ''(x)'') = lit ''(x)''"
  "py_lower u (lit ''(x)'') = lit ''(x)''"
  "re_sub match_paren (lit '' '') (lit ''(x)'') = lit '' ''"
  by (simp_all add: lit_def match_url_def match_paren_def py_lower_ascii)

lemma substitutions_space:
  "re_sub (match_url u) (lit '' '') (lit '' '') = lit '' ''"
  "py_lower u (lit '' '') = lit '' ''"
  "re_sub match_paren (lit '' '') (lit '' '') = lit '' ''"
  "re_sub (match_char is_space) (lit '' '') (lit '' '') = lit '' ''"
  "re_sub (match_literal [0xE2, 0x20AC, 0x2122]) [0x27] (lit '' '') = lit '' ''"
  "re_sub (match_char (\<lambda>c. \<not> kept_char c)) (lit '' '') (lit '' '') = lit '' ''"
  "re_sub (match_literal (lit '','')) (lit '' , '') (lit '' '') = lit '' ''"
  "re_sub (match_literal (lit ''!'')) (lit ''. '') (lit '' '') = lit '' ''"
  "re_sub (match_literal (lit ''.'')) (lit ''. '') (lit '' '') = lit '' ''"
  "re_sub (match_run is_space) (lit '' '') (lit '' '') = lit '' ''"
  "re_sub match_dots (lit ''. '') (lit '' '') = lit '' ''"
  "re_sub (match_literal [0x27, 0x20]) [0x27] (lit '' '') = lit '' ''"
  "re_sub (match_literal (lit '' l '')) (lit '' i '') (lit '' '') = lit '' ''"
  "re_sub (match_literal (lit '' ,'')) (lit '','') (lit '' '') = lit '' ''"
  by (simp_all add: lit_def match_url_def match_paren_def py_lower_ascii match_char_def
      match_literal_def match_run_def match_dots_def is_space_def kept_char_def)

lemma substitutions_empty:
  "py_lower u [] = []"
  by (simp add: py_lower_def)

lemma lit_space: "lit '' '' \<noteq> []" "last (lit '' '') = 0x20" "butlast (lit '' '') = []"
  by (simp_all add: lit_def)

text \<open>
  Claim C9: \<open>preprocess\<close> indexes its text at \<open>-1\<close> and at \<open>0\<close> without checking that
  it is not empty, and there are strings for which it raises \<open>IndexError\<close> instead of
  returning a string: the empty string (at \<open>text[-1]\<close>), a single space (at \<open>text[0]\<close>,
  after the trailing space is cut), and \<open>(x)\<close>, which the substitutions turn into a
  single space.
\<close>

theorem preprocess_index_error:
  "preprocess u (PyStr []) = Inl IndexError \<and>
   preprocess u (PyStr (lit '' '')) = Inl IndexError \<and>
   preprocess u (PyStr (lit ''(x)'')) = Inl IndexError \<and>
   (\<exists>text. preprocess u (PyStr text) = Inl IndexError)"
proof -
  have e: "preprocess u (PyStr []) = Inl IndexError"
    by (simp add: preprocess_def substitutions_empty)
  have s: "preprocess u (PyStr (lit '' '')) = Inl IndexError"
    by (simp add: preprocess_def Let_def substitutions_space lit_space)
  have x: "preprocess u (PyStr (lit ''(x)'')) = Inl IndexError"
    by (simp add: preprocess_def Let_def substitutions_bracket substitutions_space lit_space)
  from e s x show ?thesis by blast
qed

end
